theory Spec2Isabelle
  imports Main "HOL-Library.Sublist"
begin

section \<open>The Hangman engine of \<^verbatim>\<open>hangman_single.py\<close>\<close>

text \<open>
  The engine part of the file (\<^verbatim>\<open>_normalize_answer\<close>, \<^verbatim>\<open>HangmanState\<close>,
  \<^verbatim>\<open>HangmanEngine\<close>) is embedded function by function. A Python \<^verbatim>\<open>str\<close> is a
  \<open>string\<close>, a list of characters; a \<open>char\<close> is a code point from \<open>0x00\<close> to \<open>0xFF\<close>
  (ASCII and Latin-1), and \<^verbatim>\<open>str.upper\<close> and \<^verbatim>\<open>str.strip\<close> follow Python's Unicode
  tables on these code points. Python's \<^verbatim>\<open>int\<close> is \<open>int\<close>; a \<^verbatim>\<open>Set[str]\<close> is a
  \<open>string set\<close>; an exception is a value of type \<open>error\<close>.
\<close>

subsection \<open>The string operations of Python that the engine calls\<close>

definition ascii_uppercase :: string where
  "ascii_uppercase = ''ABCDEFGHIJKLMNOPQRSTUVWXYZ''"

text \<open>
  The upper-case form of one character, as \<^verbatim>\<open>str.upper\<close> gives it. The letters
  \<open>a..z\<close> (\<open>0x61..0x7A\<close>) and the Latin-1 small letters \<open>0xE0..0xFE\<close>, the division
  sign \<open>0xF7\<close> apart, go to the capital \<open>0x20\<close> below; the sharp s \<open>0xDF\<close> goes to
  the two characters \<^verbatim>\<open>SS\<close>; every other character stays. The capitals of the micro
  sign \<open>0xB5\<close> and of \<open>0xFF\<close> are \<open>U+039C\<close> and \<open>U+0178\<close>, which no \<open>char\<close> holds:
  the two stand for themselves here. Like their capitals, each is one character that
  is neither a letter \<open>A..Z\<close> nor a space, and the engine asks nothing else of an
  upper-cased character: \<^verbatim>\<open>_normalize_answer\<close> keeps only \<open>A..Z\<close> and the space,
  \<^verbatim>\<open>guess\<close> goes on only with one letter of \<open>A..Z\<close>.
\<close>

definition upper_char :: "char \<Rightarrow> string" where
  "upper_char c =
     (let n = (of_char c :: nat)
      in if (0x61 \<le> n \<and> n \<le> 0x7A) \<or> (0xE0 \<le> n \<and> n \<le> 0xFE \<and> n \<noteq> 0xF7)
         then [char_of (n - 0x20)]
         else if n = 0xDF then ''SS''
         else [c])"

text \<open>\<^verbatim>\<open>s.upper()\<close>: character by character.\<close>

definition py_upper :: "string \<Rightarrow> string" where
  "py_upper s = concat (map upper_char s)"

text \<open>
  \<^verbatim>\<open>ch.isspace()\<close>: tab, line feed, vertical tab, form feed, carriage return, the
  four separators \<open>0x1C..0x1F\<close>, the space, the next-line control \<open>0x85\<close> and the
  no-break space \<open>0xA0\<close>. These are the white-space characters of Python below
  \<open>0x100\<close>.
\<close>

definition py_isspace :: "char \<Rightarrow> bool" where
  "py_isspace c \<longleftrightarrow>
     c \<in> set [CHR 0x09, CHR 0x0A, CHR 0x0B, CHR 0x0C, CHR 0x0D,
               CHR 0x1C, CHR 0x1D, CHR 0x1E, CHR 0x1F, CHR '' '',
               CHR 0x85, CHR 0xA0]"

text \<open>\<^verbatim>\<open>s.strip()\<close>: the white space at both ends is removed.\<close>

definition py_strip :: "string \<Rightarrow> string" where
  "py_strip s = rev (dropWhile py_isspace (rev (dropWhile py_isspace s)))"

text \<open>\<^verbatim>\<open>sub in s\<close> on strings: \<open>sub\<close> occurs in \<open>s\<close> as a contiguous piece.\<close>

fun py_in :: "string \<Rightarrow> string \<Rightarrow> bool" where
  "py_in sub [] = (sub = [])"
| "py_in sub (c # cs) = (prefix sub (c # cs) \<or> py_in sub cs)"

text \<open>\<^verbatim>\<open>sep.join(parts)\<close>\<close>

fun py_join :: "string \<Rightarrow> string list \<Rightarrow> string" where
  "py_join sep [] = []"
| "py_join sep [x] = x"
| "py_join sep (x # y # ys) = x @ sep @ py_join sep (y # ys)"

subsection \<open>Module level\<close>

definition MASK_CHAR :: char where
  "MASK_CHAR = CHR ''_''"

text \<open>
  \<^verbatim>\<open>_normalize_answer(text)\<close>: upper-case, keep the characters that are in
  \<^verbatim>\<open>string.ascii_uppercase + " "\<close>, strip.
\<close>

definition normalize_answer :: "string \<Rightarrow> string" where
  "normalize_answer text =
     py_strip (filter (\<lambda>ch. py_in [ch] (ascii_uppercase @ '' '')) (py_upper text))"

subsection \<open>\<^verbatim>\<open>HangmanState\<close>\<close>

record HangmanState =
  answer :: string
  lives :: int
  guessed :: "string set"

text \<open>
  The property \<^verbatim>\<open>masked\<close>: one piece per character of the answer, the pieces
  joined by \<^verbatim>\<open>" ".join\<close>.
\<close>

definition masked :: "HangmanState \<Rightarrow> string" where
  "masked st =
     py_join '' ''
       (map (\<lambda>ch. if ch = CHR '' '' \<or> [ch] \<in> guessed st then [ch] else [MASK_CHAR])
            (answer st))"

definition is_won :: "HangmanState \<Rightarrow> bool" where
  "is_won st \<longleftrightarrow> list_all (\<lambda>ch. ch = CHR '' '' \<or> [ch] \<in> guessed st) (answer st)"

definition is_lost :: "HangmanState \<Rightarrow> bool" where
  "is_lost st \<longleftrightarrow> lives st \<le> 0 \<and> \<not> is_won st"

subsection \<open>\<^verbatim>\<open>HangmanEngine\<close>\<close>

text \<open>
  The exception classes the engine raises. The messages are \<^verbatim>\<open>words must not be empty\<close>,
  \<^verbatim>\<open>phrases must not be empty\<close>, \<^verbatim>\<open>difficulty must be 'basic' or 'intermediate'\<close>
  (all \<^verbatim>\<open>ValueError\<close>) and \<^verbatim>\<open>game not started\<close> (\<^verbatim>\<open>RuntimeError\<close>).
\<close>

datatype error = ValueError | RuntimeError | IndexError

record HangmanEngine =
  e_words :: "string list"
  e_phrases :: "string list"
  e_default_lives :: int
  e_state :: "HangmanState option"

text \<open>
  \<^verbatim>\<open>__init__(words, phrases, lives)\<close>. An entry is kept when it is non-empty and
  its stripped form is non-empty; the stripped form is stored.
\<close>

definition HangmanEngine_init :: "string list \<Rightarrow> string list \<Rightarrow> int \<Rightarrow> error + HangmanEngine" where
  "HangmanEngine_init words phrases n =
     (let ws = map py_strip (filter (\<lambda>w. w \<noteq> [] \<and> py_strip w \<noteq> []) words);
          ps = map py_strip (filter (\<lambda>p. p \<noteq> [] \<and> py_strip p \<noteq> []) phrases)
      in if ws = [] then Inl ValueError
         else if ps = [] then Inl ValueError
         else Inr \<lparr>e_words = ws, e_phrases = ps, e_default_lives = n, e_state = None\<rparr>)"

text \<open>
  Every method returns what the call gives (the exception raised, or the value
  returned) together with the engine as the call leaves it.
\<close>

text \<open>The property \<^verbatim>\<open>state\<close>; it reads the engine and changes nothing.\<close>

definition state :: "HangmanEngine \<Rightarrow> error + HangmanState" where
  "state e =
     (case e_state e of
        None \<Rightarrow> Inl RuntimeError
      | Some st \<Rightarrow> Inr st)"

text \<open>
  \<^verbatim>\<open>start(difficulty)\<close>. The draw \<^verbatim>\<open>self._rng.choice(pool)\<close> is
  \<^verbatim>\<open>pool[i]\<close> for an index \<open>i\<close> below \<^verbatim>\<open>len(pool)\<close> that the generator
  picks; the number \<open>r\<close> stands for the generator's pick, taken modulo the length of
  the pool. On an empty pool \<^verbatim>\<open>choice\<close> raises \<^verbatim>\<open>IndexError\<close>.
\<close>

definition start :: "HangmanEngine \<Rightarrow> string \<Rightarrow> nat \<Rightarrow> (error + HangmanState) \<times> HangmanEngine" where
  "start e difficulty r =
     (if difficulty \<notin> {''basic'', ''intermediate''}
      then (Inl ValueError, e)
      else
        let pool = (if difficulty = ''basic'' then e_words e else e_phrases e)
        in if pool = [] then (Inl IndexError, e)
           else
             let raw = pool ! (r mod length pool);
                 e' = e\<lparr>e_state :=
                         Some \<lparr>answer = normalize_answer raw,
                               lives = e_default_lives e,
                               guessed = {}\<rparr>\<rparr>
             in (state e', e'))"

definition guess :: "HangmanEngine \<Rightarrow> string \<Rightarrow> (error + HangmanState) \<times> HangmanEngine" where
  "guess e letter0 =
     (case e_state e of
        None \<Rightarrow> (Inl RuntimeError, e)
      | Some st \<Rightarrow>
          if is_won st \<or> is_lost st then (Inr st, e)
          else
            let letter = py_upper (py_strip letter0)
            in if length letter \<noteq> 1 \<or> \<not> py_in letter ascii_uppercase then (Inr st, e)
               else if letter \<in> guessed st then (Inr st, e)
               else
                 let new_guessed = insert letter (guessed st);
                     new_lives = lives st - (if py_in letter (answer st) then 0 else 1);
                     st' = \<lparr>answer = answer st, lives = new_lives, guessed = new_guessed\<rparr>
                 in (Inr st', e\<lparr>e_state := Some st'\<rparr>))"

definition timeout :: "HangmanEngine \<Rightarrow> (error + HangmanState) \<times> HangmanEngine" where
  "timeout e =
     (case e_state e of
        None \<Rightarrow> (Inl RuntimeError, e)
      | Some st \<Rightarrow>
          if is_won st \<or> is_lost st then (Inr st, e)
          else
            let new_lives = max (lives st - 1) 0;
                st' = \<lparr>answer = answer st, lives = new_lives, guessed = guessed st\<rparr>
            in (Inr st', e\<lparr>e_state := Some st'\<rparr>))"

subsection \<open>Sequences of calls\<close>

text \<open>
  A caller's calls on one engine, in order. A call that raises leaves the engine as
  it is at the raise, and the caller may go on calling.
\<close>

datatype call = Start string nat | Guess string | Timeout

fun exec_call :: "HangmanEngine \<Rightarrow> call \<Rightarrow> (error + HangmanState) \<times> HangmanEngine" where
  "exec_call e (Start d r) = start e d r"
| "exec_call e (Guess l) = guess e l"
| "exec_call e Timeout = timeout e"

fun run_calls :: "HangmanEngine \<Rightarrow> call list \<Rightarrow> HangmanEngine" where
  "run_calls e [] = e"
| "run_calls e (c # cs) = run_calls (snd (exec_call e c)) cs"

fun is_start :: "call \<Rightarrow> bool" where
  "is_start (Start d r) = True"
| "is_start c = False"

text \<open>
  The invariant behind the bound on the life count: the stored snapshot, when there
  is one, has a life count between zero and the engine's default.
\<close>

definition lives_bounded :: "HangmanEngine \<Rightarrow> bool" where
  "lives_bounded e \<longleftrightarrow>
     (case e_state e of None \<Rightarrow> True
      | Some st \<Rightarrow> 0 \<le> lives st \<and> lives st \<le> e_default_lives e)"

section \<open>Basic facts\<close>

lemma py_in_single: "py_in [c] s \<longleftrightarrow> c \<in> set s"
  by (induction s) auto

lemma length_join_single:
  "length (py_join [s] (map (\<lambda>c. [f c]) xs)) = 2 * length xs - 1"
  by (induction xs rule: induct_list012) auto

lemma nth_join_even:
  "i < length xs \<Longrightarrow> py_join [s] (map (\<lambda>c. [f c]) xs) ! (2 * i) = f (xs ! i)"
proof (induction xs arbitrary: i rule: induct_list012)
  case 1
  then show ?case by simp
next
  case (2 x)
  then show ?case by simp
next
  case (3 x y zs)
  show ?case
  proof (cases i)
    case 0
    then show ?thesis by simp
  next
    case (Suc j)
    with 3 show ?thesis by simp
  qed
qed

lemma nth_join_odd:
  "Suc i < length xs \<Longrightarrow> py_join [s] (map (\<lambda>c. [f c]) xs) ! (2 * i + 1) = s"
proof (induction xs arbitrary: i rule: induct_list012)
  case 1
  then show ?case by simp
next
  case (2 x)
  then show ?case by simp
next
  case (3 x y zs)
  show ?case
  proof (cases i)
    case 0
    then show ?thesis by simp
  next
    case (Suc j)
    with 3 show ?thesis by simp
  qed
qed

lemma guess_terminal:
  "e_state e = Some st \<Longrightarrow> is_won st \<or> is_lost st \<Longrightarrow> guess e l = (Inr st, e)"
  by (simp add: guess_def)

lemma timeout_terminal:
  "e_state e = Some st \<Longrightarrow> is_won st \<or> is_lost st \<Longrightarrow> timeout e = (Inr st, e)"
  by (simp add: timeout_def)

lemma exec_call_terminal:
  "e_state e = Some st \<Longrightarrow> is_won st \<or> is_lost st \<Longrightarrow> \<not> is_start c \<Longrightarrow>
   exec_call e c = (Inr st, e)"
  by (cases c) (simp_all add: guess_terminal timeout_terminal)

lemma run_calls_terminal:
  "e_state e = Some st \<Longrightarrow> is_won st \<or> is_lost st \<Longrightarrow> \<forall>c\<in>set cs. \<not> is_start c \<Longrightarrow>
   run_calls e cs = e"
  by (induction cs) (simp_all add: exec_call_terminal)

lemma dropWhile_all_iff: "(\<forall>x\<in>set (dropWhile P s). P x) \<longleftrightarrow> (\<forall>x\<in>set s. P x)"
  by (induction s) simp_all

lemma py_strip_empty_iff: "py_strip s = [] \<longleftrightarrow> list_all py_isspace s"
  by (simp add: py_strip_def list_all_iff dropWhile_all_iff)

lemma normalize_answer_empty:
  assumes "\<forall>ch\<in>set (py_upper raw). ch \<notin> set ascii_uppercase"
  shows "normalize_answer raw = []"
proof -
  have "list_all py_isspace (filter (\<lambda>ch. py_in [ch] (ascii_uppercase @ '' '')) (py_upper raw))"
    using assms by (auto simp add: list_all_iff py_in_single py_isspace_def)
  then show ?thesis
    by (simp add: normalize_answer_def py_strip_empty_iff)
qed

lemma is_won_empty_answer: "answer st = [] \<Longrightarrow> is_won st"
  by (simp add: is_won_def)

lemma init_unfold:
  "HangmanEngine_init ws ps n =
     (if filter (\<lambda>w. \<not> list_all py_isspace w) ws = [] then Inl ValueError
      else if filter (\<lambda>p. \<not> list_all py_isspace p) ps = [] then Inl ValueError
      else Inr \<lparr>e_words = map py_strip (filter (\<lambda>w. \<not> list_all py_isspace w) ws),
                e_phrases = map py_strip (filter (\<lambda>p. \<not> list_all py_isspace p) ps),
                e_default_lives = n, e_state = None\<rparr>)"
proof -
  have k: "(\<lambda>w. w \<noteq> [] \<and> py_strip w \<noteq> []) = (\<lambda>w. \<not> list_all py_isspace w)"
    by (auto simp add: py_strip_empty_iff)
  show ?thesis
    unfolding HangmanEngine_init_def k Let_def by simp
qed

lemma init_fields:
  assumes "HangmanEngine_init ws ps n = Inr e"
  shows "e_words e \<noteq> []" "e_phrases e \<noteq> []" "e_default_lives e = n" "e_state e = None"
proof -
  from assms have
    "filter (\<lambda>w. \<not> list_all py_isspace w) ws \<noteq> [] \<and>
     filter (\<lambda>p. \<not> list_all py_isspace p) ps \<noteq> [] \<and>
     \<lparr>e_words = map py_strip (filter (\<lambda>w. \<not> list_all py_isspace w) ws),
      e_phrases = map py_strip (filter (\<lambda>p. \<not> list_all py_isspace p) ps),
      e_default_lives = n, e_state = None\<rparr> = e"
    unfolding init_unfold by (simp split: if_splits)
  then obtain a: "filter (\<lambda>w. \<not> list_all py_isspace w) ws \<noteq> []"
    and b: "filter (\<lambda>p. \<not> list_all py_isspace p) ps \<noteq> []"
    and c: "\<lparr>e_words = map py_strip (filter (\<lambda>w. \<not> list_all py_isspace w) ws),
      e_phrases = map py_strip (filter (\<lambda>p. \<not> list_all py_isspace p) ps),
      e_default_lives = n, e_state = None\<rparr> = e"
    by blast
  from a show "e_words e \<noteq> []" unfolding c [symmetric] by simp
  from b show "e_phrases e \<noteq> []" unfolding c [symmetric] by simp
  show "e_default_lives e = n" unfolding c [symmetric] by simp
  show "e_state e = None" unfolding c [symmetric] by simp
qed

lemma guess_fresh:
  assumes "e_state e = Some st" "\<not> is_won st" "\<not> is_lost st"
    and "py_upper (py_strip l) = [c]" "c \<in> set ascii_uppercase" "[c] \<notin> guessed st"
  shows "guess e l =
    (Inr \<lparr>answer = answer st,
          lives = (if c \<in> set (answer st) then lives st else lives st - 1),
          guessed = insert [c] (guessed st)\<rparr>,
     e\<lparr>e_state := Some \<lparr>answer = answer st,
          lives = (if c \<in> set (answer st) then lives st else lives st - 1),
          guessed = insert [c] (guessed st)\<rparr>\<rparr>)"
  using assms by (simp add: guess_def py_in_single Let_def)

lemma guess_ignored:
  assumes "e_state e = Some st"
    and "\<not> (\<exists>c. py_upper (py_strip l) = [c] \<and> c \<in> set ascii_uppercase) \<or> py_upper (py_strip l) \<in> guessed st"
  shows "guess e l = (Inr st, e)"
proof (cases "length (py_upper (py_strip l)) = 1")
  case True
  then obtain c where c: "py_upper (py_strip l) = [c]"
    by (cases "py_upper (py_strip l)") auto
  with assms show ?thesis by (auto simp add: guess_def py_in_single Let_def)
next
  case False
  with assms show ?thesis by (simp add: guess_def Let_def)
qed

lemma guess_not_started: "e_state e = None \<Longrightarrow> guess e l = (Inl RuntimeError, e)"
  by (simp add: guess_def)

lemma timeout_not_started: "e_state e = None \<Longrightarrow> timeout e = (Inl RuntimeError, e)"
  by (simp add: timeout_def)

lemma timeout_live:
  assumes "e_state e = Some st" "\<not> is_won st" "\<not> is_lost st"
  shows "timeout e =
    (Inr \<lparr>answer = answer st, lives = max (lives st - 1) 0, guessed = guessed st\<rparr>,
     e\<lparr>e_state := Some \<lparr>answer = answer st, lives = max (lives st - 1) 0,
                           guessed = guessed st\<rparr>\<rparr>)"
  using assms by (simp add: timeout_def Let_def)

lemma guess_cases:
  assumes "e_state e = Some st"
  shows "guess e l = (Inr st, e) \<or>
    (\<not> is_won st \<and> \<not> is_lost st \<and>
     (\<exists>c. py_upper (py_strip l) = [c] \<and> c \<in> set ascii_uppercase \<and> [c] \<notin> guessed st \<and>
        guess e l =
          (Inr \<lparr>answer = answer st,
                lives = (if c \<in> set (answer st) then lives st else lives st - 1),
                guessed = insert [c] (guessed st)\<rparr>,
           e\<lparr>e_state := Some \<lparr>answer = answer st,
                lives = (if c \<in> set (answer st) then lives st else lives st - 1),
                guessed = insert [c] (guessed st)\<rparr>\<rparr>)))"
proof (cases "is_won st \<or> is_lost st")
  case True
  with assms show ?thesis by (simp add: guess_terminal)
next
  case live: False
  show ?thesis
  proof (cases "\<exists>c. py_upper (py_strip l) = [c] \<and> c \<in> set ascii_uppercase \<and> [c] \<notin> guessed st")
    case True
    then obtain c where c: "py_upper (py_strip l) = [c]" "c \<in> set ascii_uppercase" "[c] \<notin> guessed st"
      by blast
    from live have "\<not> is_won st" "\<not> is_lost st" by simp_all
    from guess_fresh [OF assms this c] live c show ?thesis by blast
  next
    case False
    then have "\<not> (\<exists>c. py_upper (py_strip l) = [c] \<and> c \<in> set ascii_uppercase) \<or>
      py_upper (py_strip l) \<in> guessed st"
      by auto
    with assms show ?thesis by (simp add: guess_ignored)
  qed
qed

lemma timeout_cases:
  assumes "e_state e = Some st"
  shows "timeout e = (Inr st, e) \<or>
    (\<not> is_won st \<and> \<not> is_lost st \<and>
     timeout e =
       (Inr \<lparr>answer = answer st, lives = max (lives st - 1) 0, guessed = guessed st\<rparr>,
        e\<lparr>e_state := Some \<lparr>answer = answer st, lives = max (lives st - 1) 0,
                              guessed = guessed st\<rparr>\<rparr>))"
proof (cases "is_won st \<or> is_lost st")
  case True
  with assms show ?thesis by (simp add: timeout_terminal)
next
  case False
  with assms show ?thesis by (simp add: timeout_live)
qed

lemma start_invalid:
  "d \<noteq> ''basic'' \<Longrightarrow> d \<noteq> ''intermediate'' \<Longrightarrow> start e d r = (Inl ValueError, e)"
  by (simp add: start_def)

lemma start_empty_pool:
  "d = ''basic'' \<or> d = ''intermediate'' \<Longrightarrow>
   (if d = ''basic'' then e_words e else e_phrases e) = [] \<Longrightarrow>
   start e d r = (Inl IndexError, e)"
  by (auto simp add: start_def Let_def)

lemma start_valid:
  assumes "d = ''basic'' \<or> d = ''intermediate''"
    and "pool = (if d = ''basic'' then e_words e else e_phrases e)"
    and "pool \<noteq> []"
    and "st = \<lparr>answer = normalize_answer (pool ! (r mod length pool)),
               lives = e_default_lives e, guessed = {}\<rparr>"
  shows "start e d r = (Inr st, e\<lparr>e_state := Some st\<rparr>)"
  using assms by (auto simp add: start_def state_def Let_def)

lemma start_cases:
  "start e d r = (Inl ValueError, e) \<or> start e d r = (Inl IndexError, e) \<or>
   (\<exists>a. start e d r =
      (Inr \<lparr>answer = a, lives = e_default_lives e, guessed = {}\<rparr>,
       e\<lparr>e_state := Some \<lparr>answer = a, lives = e_default_lives e, guessed = {}\<rparr>\<rparr>))"
proof (cases "d = ''basic'' \<or> d = ''intermediate''")
  case False
  then show ?thesis by (simp add: start_invalid)
next
  case valid: True
  show ?thesis
  proof (cases "(if d = ''basic'' then e_words e else e_phrases e) = []")
    case True
    with valid show ?thesis by (simp add: start_empty_pool)
  next
    case False
    with valid show ?thesis
      using start_valid [OF valid refl False refl, of r] by blast
  qed
qed

lemma start_static:
  "e_words (snd (start e d r)) = e_words e \<and>
   e_phrases (snd (start e d r)) = e_phrases e \<and>
   e_default_lives (snd (start e d r)) = e_default_lives e"
  using start_cases [of e d r] by (elim disjE exE) simp_all

lemma guess_static:
  "e_words (snd (guess e l)) = e_words e \<and>
   e_phrases (snd (guess e l)) = e_phrases e \<and>
   e_default_lives (snd (guess e l)) = e_default_lives e"
proof (cases "e_state e")
  case None
  then show ?thesis by (simp add: guess_not_started)
next
  case (Some st)
  from guess_cases [OF this, of l] show ?thesis
    by (elim disjE conjE exE) simp_all
qed

lemma timeout_static:
  "e_words (snd (timeout e)) = e_words e \<and>
   e_phrases (snd (timeout e)) = e_phrases e \<and>
   e_default_lives (snd (timeout e)) = e_default_lives e"
proof (cases "e_state e")
  case None
  then show ?thesis by (simp add: timeout_not_started)
next
  case (Some st)
  from timeout_cases [OF this] show ?thesis
    by (elim disjE conjE) simp_all
qed

lemma exec_call_static:
  "e_words (snd (exec_call e c)) = e_words e \<and>
   e_phrases (snd (exec_call e c)) = e_phrases e \<and>
   e_default_lives (snd (exec_call e c)) = e_default_lives e"
  by (cases c) (simp_all add: start_static guess_static timeout_static)

lemma run_calls_static:
  "e_words (run_calls e cs) = e_words e \<and>
   e_phrases (run_calls e cs) = e_phrases e \<and>
   e_default_lives (run_calls e cs) = e_default_lives e"
  by (induction cs arbitrary: e) (simp_all add: exec_call_static)

lemma exec_call_lives_bounded:
  assumes "0 < e_default_lives e" "lives_bounded e"
  shows "lives_bounded (snd (exec_call e c))"
proof (cases c)
  case (Start d r)
  from start_cases [of e d r] show ?thesis
  proof (elim disjE exE)
    assume "start e d r = (Inl ValueError, e)"
    with assms Start show ?thesis by simp
  next
    assume "start e d r = (Inl IndexError, e)"
    with assms Start show ?thesis by simp
  next
    fix a
    assume "start e d r =
      (Inr \<lparr>answer = a, lives = e_default_lives e, guessed = {}\<rparr>,
       e\<lparr>e_state := Some \<lparr>answer = a, lives = e_default_lives e, guessed = {}\<rparr>\<rparr>)"
    with assms Start show ?thesis by (simp add: lives_bounded_def)
  qed
next
  case (Guess l)
  show ?thesis
  proof (cases "e_state e")
    case None
    with assms Guess show ?thesis by (simp add: guess_not_started)
  next
    case (Some st)
    from assms Some have b: "0 \<le> lives st" "lives st \<le> e_default_lives e"
      by (simp_all add: lives_bounded_def)
    from guess_cases [OF Some, of l] show ?thesis
    proof (elim disjE conjE exE)
      assume "guess e l = (Inr st, e)"
      with assms Guess show ?thesis by simp
    next
      fix c
      assume "\<not> is_lost st" "\<not> is_won st"
      then have "0 < lives st" by (simp add: is_lost_def)
      moreover assume "guess e l =
          (Inr \<lparr>answer = answer st,
                lives = (if c \<in> set (answer st) then lives st else lives st - 1),
                guessed = insert [c] (guessed st)\<rparr>,
           e\<lparr>e_state := Some \<lparr>answer = answer st,
                lives = (if c \<in> set (answer st) then lives st else lives st - 1),
                guessed = insert [c] (guessed st)\<rparr>\<rparr>)"
      ultimately show ?thesis
        using b Guess by (simp add: lives_bounded_def)
    qed
  qed
next
  case Timeout
  show ?thesis
  proof (cases "e_state e")
    case None
    with assms Timeout show ?thesis by (simp add: timeout_not_started)
  next
    case (Some st)
    from assms Some have b: "0 \<le> lives st" "lives st \<le> e_default_lives e"
      by (simp_all add: lives_bounded_def)
    from timeout_cases [OF Some] show ?thesis
    proof (elim disjE conjE)
      assume "timeout e = (Inr st, e)"
      with assms Timeout show ?thesis by simp
    next
      assume "timeout e =
       (Inr \<lparr>answer = answer st, lives = max (lives st - 1) 0, guessed = guessed st\<rparr>,
        e\<lparr>e_state := Some \<lparr>answer = answer st, lives = max (lives st - 1) 0,
                              guessed = guessed st\<rparr>\<rparr>)"
      then show ?thesis
        using b Timeout by (simp add: lives_bounded_def)
    qed
  qed
qed

lemma run_calls_lives_bounded:
  "0 < e_default_lives e \<Longrightarrow> lives_bounded e \<Longrightarrow> lives_bounded (run_calls e cs)"
proof (induction cs arbitrary: e)
  case Nil
  then show ?case by simp
next
  case (Cons c cs)
  have "0 < e_default_lives (snd (exec_call e c))"
    using Cons.prems by (simp add: exec_call_static)
  moreover have "lives_bounded (snd (exec_call e c))"
    using Cons.prems by (rule exec_call_lives_bounded)
  ultimately show ?case
    using Cons.IH by simp
qed

lemma start_returns_stored:
  "fst (start e d r) = Inr st \<Longrightarrow> e_state (snd (start e d r)) = Some st"
  using start_cases [of e d r] by (elim disjE exE) simp_all

lemma guess_returns_stored:
  assumes "fst (guess e l) = Inr st"
  shows "e_state (snd (guess e l)) = Some st"
proof (cases "e_state e")
  case None
  with assms show ?thesis by (simp add: guess_not_started)
next
  case (Some s)
  from guess_cases [OF this, of l] assms Some show ?thesis
    by (elim disjE conjE exE) simp_all
qed

lemma timeout_returns_stored:
  assumes "fst (timeout e) = Inr st"
  shows "e_state (snd (timeout e)) = Some st"
proof (cases "e_state e")
  case None
  with assms show ?thesis by (simp add: timeout_not_started)
next
  case (Some s)
  from timeout_cases [OF this] assms Some show ?thesis
    by (elim disjE conjE) simp_all
qed

lemma exec_call_returns_stored:
  "fst (exec_call e c) = Inr st \<Longrightarrow> e_state (snd (exec_call e c)) = Some st"
  by (cases c) (simp_all add: start_returns_stored guess_returns_stored timeout_returns_stored)

lemma exec_call_not_started:
  "e_state e = None \<Longrightarrow> \<not> is_start c \<Longrightarrow> exec_call e c = (Inl RuntimeError, e)"
  by (cases c) (simp_all add: guess_not_started timeout_not_started)

lemma run_calls_not_started:
  "e_state e = None \<Longrightarrow> \<forall>c\<in>set cs. \<not> is_start c \<Longrightarrow> run_calls e cs = e"
  by (induction cs) (simp_all add: exec_call_not_started)

lemma guess_twice:
  assumes "e_state e = Some st"
  shows "guess (snd (guess e l)) l = guess e l"
  using guess_cases [OF assms, of l]
proof (elim disjE conjE exE)
  assume "guess e l = (Inr st, e)"
  then show ?thesis by simp
next
  fix c
  let ?st' = "\<lparr>answer = answer st,
                lives = (if c \<in> set (answer st) then lives st else lives st - 1),
                guessed = insert [c] (guessed st)\<rparr>"
  assume c: "py_upper (py_strip l) = [c]"
    and g: "guess e l = (Inr ?st', e\<lparr>e_state := Some ?st'\<rparr>)"
  have "e_state (e\<lparr>e_state := Some ?st'\<rparr>) = Some ?st'" by simp
  moreover have "\<not> (\<exists>d. py_upper (py_strip l) = [d] \<and> d \<in> set ascii_uppercase) \<or>
    py_upper (py_strip l) \<in> guessed ?st'"
    using c by simp
  ultimately have "guess (e\<lparr>e_state := Some ?st'\<rparr>) l = (Inr ?st', e\<lparr>e_state := Some ?st'\<rparr>)"
    by (rule guess_ignored)
  with g show ?thesis by simp
qed

lemma masked_pieces:
  "masked st =
     py_join '' ''
       (map (\<lambda>ch. [if ch = CHR '' '' \<or> [ch] \<in> guessed st then ch else MASK_CHAR])
            (answer st))"
proof -
  have "(\<lambda>ch. if ch = CHR '' '' \<or> [ch] \<in> guessed st then [ch] else [MASK_CHAR]) =
        (\<lambda>ch. [if ch = CHR '' '' \<or> [ch] \<in> guessed st then ch else MASK_CHAR])"
    by (rule ext) simp
  then show ?thesis
    by (simp only: masked_def)
qed

lemma init_raises_iff:
  "HangmanEngine_init ws ps n = Inl ValueError \<longleftrightarrow>
     filter (\<lambda>w. \<not> list_all py_isspace w) ws = [] \<or>
     filter (\<lambda>p. \<not> list_all py_isspace p) ps = []"
  unfolding init_unfold by simp

lemma init_result:
  "HangmanEngine_init ws ps n = Inl ValueError \<or>
   HangmanEngine_init ws ps n =
     Inr \<lparr>e_words = map py_strip (filter (\<lambda>w. \<not> list_all py_isspace w) ws),
          e_phrases = map py_strip (filter (\<lambda>p. \<not> list_all py_isspace p) ps),
          e_default_lives = n, e_state = None\<rparr>"
  unfolding init_unfold by simp

lemma start_raises_iff:
  assumes "e_words e \<noteq> []" and "e_phrases e \<noteq> []"
  shows "isl (fst (start e d r)) \<longleftrightarrow> d \<noteq> ''basic'' \<and> d \<noteq> ''intermediate''"
proof (cases "d = ''basic'' \<or> d = ''intermediate''")
  case True
  then have "(if d = ''basic'' then e_words e else e_phrases e) \<noteq> []"
    using assms by auto
  from start_valid [OF True refl this refl, of r] True show ?thesis
    by auto
next
  case False
  then show ?thesis by (simp add: start_invalid)
qed

lemma py_strip_all_space:
  assumes "list_all py_isspace (py_strip s)"
  shows "py_strip s = []"
proof (rule ccontr)
  let ?z = "dropWhile py_isspace (rev (dropWhile py_isspace s))"
  assume "py_strip s \<noteq> []"
  then have ne: "?z \<noteq> []"
    by (simp add: py_strip_def)
  then have "\<not> py_isspace (hd ?z)"
    by (rule hd_dropWhile)
  moreover have "hd ?z \<in> set (py_strip s)"
    using ne by (simp add: py_strip_def)
  ultimately show False
    using assms by (simp add: list_all_iff)
qed

lemma is_won_fresh_iff:
  "is_won \<lparr>answer = normalize_answer raw, lives = n, guessed = {}\<rparr> \<longleftrightarrow>
     normalize_answer raw = []"
proof
  assume "is_won \<lparr>answer = normalize_answer raw, lives = n, guessed = {}\<rparr>"
  then have "list_all py_isspace (normalize_answer raw)"
    by (simp add: is_won_def list_all_iff py_isspace_def)
  then show "normalize_answer raw = []"
    unfolding normalize_answer_def by (rule py_strip_all_space)
next
  assume "normalize_answer raw = []"
  then show "is_won \<lparr>answer = normalize_answer raw, lives = n, guessed = {}\<rparr>"
    by (simp add: is_won_def)
qed

section \<open>Concrete evaluations\<close>

lemma upper_strip_z: "py_upper (py_strip '' z '') = ''Z''"
  by code_simp

lemma run_two_wrong_guesses:
  "run_calls \<lparr>e_words = [''A''], e_phrases = [''B C''], e_default_lives = 2, e_state = None\<rparr>
     [Start ''basic'' 0, Guess ''Z'', Guess ''Y''] =
   \<lparr>e_words = [''A''], e_phrases = [''B C''], e_default_lives = 2,
    e_state = Some \<lparr>answer = ''A'', lives = 0, guessed = {''Y'', ''Z''}\<rparr>\<rparr>"
  by code_simp

lemma init_A_BC_2:
  "HangmanEngine_init [''A''] [''B C''] 2 =
   Inr \<lparr>e_words = [''A''], e_phrases = [''B C''], e_default_lives = 2, e_state = None\<rparr>"
  by code_simp

lemma upper_strip_ab: "py_upper (py_strip ''ab'') = ''AB''"
  by code_simp

lemma init_ABC_XY_3:
  "HangmanEngine_init [''ABC''] [''X Y''] 3 =
     Inr \<lparr>e_words = [''ABC''], e_phrases = [''X Y''], e_default_lives = 3, e_state = None\<rparr>"
  by code_simp

lemma scenario_A_first_guess:
  "guess (snd (start \<lparr>e_words = [''ABC''], e_phrases = [''X Y''], e_default_lives = 3,
                      e_state = None\<rparr> ''basic'' 0)) ''A'' =
     (Inr \<lparr>answer = ''ABC'', lives = 3, guessed = {''A''}\<rparr>,
      \<lparr>e_words = [''ABC''], e_phrases = [''X Y''], e_default_lives = 3,
       e_state = Some \<lparr>answer = ''ABC'', lives = 3, guessed = {''A''}\<rparr>\<rparr>)"
  by code_simp

lemma masked_ABC_A:
  "masked \<lparr>answer = ''ABC'', lives = 3, guessed = {''A''}\<rparr> = ''A _ _''"
  by code_simp

lemma init_A_B_minus_1:
  "HangmanEngine_init [''A''] [''B''] (- 1) =
     Inr \<lparr>e_words = [''A''], e_phrases = [''B''], e_default_lives = - 1, e_state = None\<rparr>"
  by code_simp

lemma start_A_B_minus_1:
  "fst (start \<lparr>e_words = [''A''], e_phrases = [''B''], e_default_lives = - 1,
               e_state = None\<rparr> ''basic'' 0) =
     Inr \<lparr>answer = ''A'', lives = - 1, guessed = {}\<rparr>"
  by code_simp

lemma lost_A_minus_1: "is_lost \<lparr>answer = ''A'', lives = - 1, guessed = {}\<rparr>"
  by code_simp

lemma upper_digits: "py_upper ''1-2'' = ''1-2''"
  by code_simp

lemma init_ABC_XY_0:
  "HangmanEngine_init [''ABC''] [''X Y''] 0 =
     Inr \<lparr>e_words = [''ABC''], e_phrases = [''X Y''], e_default_lives = 0, e_state = None\<rparr>"
  by code_simp

lemma start_ABC_XY_0:
  "start \<lparr>e_words = [''ABC''], e_phrases = [''X Y''], e_default_lives = 0, e_state = None\<rparr>
     ''intermediate'' 0 =
     (Inr \<lparr>answer = ''X Y'', lives = 0, guessed = {}\<rparr>,
      \<lparr>e_words = [''ABC''], e_phrases = [''X Y''], e_default_lives = 0,
       e_state = Some \<lparr>answer = ''X Y'', lives = 0, guessed = {}\<rparr>\<rparr>)"
  by code_simp

lemma init_abc_XY_3:
  "HangmanEngine_init [''abc''] [''X Y''] 3 =
     Inr \<lparr>e_words = [''abc''], e_phrases = [''X Y''], e_default_lives = 3, e_state = None\<rparr>"
  by code_simp

lemma start_abc_XY_3:
  "start \<lparr>e_words = [''abc''], e_phrases = [''X Y''], e_default_lives = 3, e_state = None\<rparr>
     ''basic'' 0 =
     (Inr \<lparr>answer = ''ABC'', lives = 3, guessed = {}\<rparr>,
      \<lparr>e_words = [''abc''], e_phrases = [''X Y''], e_default_lives = 3,
       e_state = Some \<lparr>answer = ''ABC'', lives = 3, guessed = {}\<rparr>\<rparr>)"
  by code_simp

lemma timeout_abc_XY_3:
  "fst (timeout \<lparr>e_words = [''abc''], e_phrases = [''X Y''], e_default_lives = 3,
                 e_state = Some \<lparr>answer = ''ABC'', lives = 3, guessed = {}\<rparr>\<rparr>) =
     Inr \<lparr>answer = ''ABC'', lives = 2, guessed = {}\<rparr>"
  by code_simp

lemma abc_no_capitals: "set ''abc'' \<inter> set ascii_uppercase = {}"
  by (simp add: ascii_uppercase_def)

lemma not_won_ABC_fresh: "\<not> is_won \<lparr>answer = ''ABC'', lives = 3, guessed = {}\<rparr>"
  by (simp add: is_won_def)

section \<open>The claims\<close>

subsection \<open>C5: a new valid letter\<close>

text \<open>
  C5. In a round that is neither won nor lost, when the input, stripped and
  upper-cased, is exactly one letter \<open>c\<close> of \<open>A..Z\<close> that is not in the guessed set,
  \<^verbatim>\<open>guess\<close> returns and stores a snapshot whose guessed set is the old one with
  that letter added, whose life count is one less when \<open>c\<close> does not occur in the
  answer and the same when it does, and whose answer is the old answer.
\<close>

theorem guess_new_letter:
  assumes "e_state e = Some st" and "\<not> is_won st" and "\<not> is_lost st"
    and "py_upper (py_strip l) = [c]" and "c \<in> set ascii_uppercase"
    and "[c] \<notin> guessed st"
  shows "\<exists>st'. guess e l = (Inr st', e\<lparr>e_state := Some st'\<rparr>) \<and>
           guessed st' = insert [c] (guessed st) \<and>
           lives st' = (if c \<in> set (answer st) then lives st else lives st - 1) \<and>
           answer st' = answer st"
  using guess_fresh [OF assms] by simp

theorem guess_new_letter_witness:
  "\<exists>st'. guess \<lparr>e_words = [''ABC''], e_phrases = [''X Y''], e_default_lives = 3,
                  e_state = Some \<lparr>answer = ''ABC'', lives = 3, guessed = {''A''}\<rparr>\<rparr> '' z '' =
            (Inr st', \<lparr>e_words = [''ABC''], e_phrases = [''X Y''], e_default_lives = 3,
                    e_state = Some st'\<rparr>) \<and>
         guessed st' = {''Z'', ''A''} \<and> lives st' = 2 \<and> answer st' = ''ABC''"
  using guess_new_letter
    [of "\<lparr>e_words = [''ABC''], e_phrases = [''X Y''], e_default_lives = 3,
          e_state = Some \<lparr>answer = ''ABC'', lives = 3, guessed = {''A''}\<rparr>\<rparr>"
        "\<lparr>answer = ''ABC'', lives = 3, guessed = {''A''}\<rparr>" "'' z ''" "CHR ''Z''"]
  by (simp add: is_won_def is_lost_def upper_strip_z ascii_uppercase_def)

subsection \<open>C6: a timeout\<close>

text \<open>
  C6. In a round that is neither won nor lost, \<^verbatim>\<open>timeout\<close> returns and stores a
  snapshot whose life count is the old one minus one, not below zero, and whose
  guessed set and answer are the old ones.
\<close>

theorem timeout_decrements_clamped:
  assumes "e_state e = Some st" and "\<not> is_won st" and "\<not> is_lost st"
  shows "\<exists>st'. timeout e = (Inr st', e\<lparr>e_state := Some st'\<rparr>) \<and>
           lives st' = max (lives st - 1) 0 \<and>
           guessed st' = guessed st \<and> answer st' = answer st"
  using timeout_live [OF assms] by simp

theorem timeout_decrements_clamped_witness:
  "\<exists>st'. timeout \<lparr>e_words = [''ABC''], e_phrases = [''X Y''], e_default_lives = 2,
                    e_state = Some \<lparr>answer = ''ABC'', lives = 2, guessed = {}\<rparr>\<rparr> =
            (Inr st', \<lparr>e_words = [''ABC''], e_phrases = [''X Y''], e_default_lives = 2,
                    e_state = Some st'\<rparr>) \<and>
         lives st' = 1 \<and> guessed st' = {} \<and> answer st' = ''ABC''"
  using timeout_decrements_clamped
    [of "\<lparr>e_words = [''ABC''], e_phrases = [''X Y''], e_default_lives = 2,
          e_state = Some \<lparr>answer = ''ABC'', lives = 2, guessed = {}\<rparr>\<rparr>"
        "\<lparr>answer = ''ABC'', lives = 2, guessed = {}\<rparr>"]
  by (simp add: is_won_def is_lost_def)

subsection \<open>C2: a decided round stays as it is\<close>

text \<open>
  C2. Once the stored snapshot is won or lost, every \<^verbatim>\<open>guess\<close> and every
  \<^verbatim>\<open>timeout\<close> returns that same snapshot and leaves the engine as it is, and so
  does any sequence of such calls: life count, guessed set, answer and masked view
  are those of before. This holds of every engine with a decided snapshot, so of
  every one that a sequence of calls reaches.
\<close>

theorem terminal_state_is_absorbing:
  assumes "e_state e = Some st" and "is_won st \<or> is_lost st"
    and "\<forall>c\<in>set cs. \<not> is_start c"
  shows "guess e l = (Inr st, e) \<and> timeout e = (Inr st, e) \<and>
         run_calls e cs = e \<and> (\<forall>c\<in>set cs. exec_call e c = (Inr st, e))"
  using assms
  by (simp add: guess_terminal timeout_terminal run_calls_terminal exec_call_terminal)

theorem terminal_state_is_absorbing_witness:
  "guess \<lparr>e_words = [''A''], e_phrases = [''B C''], e_default_lives = 2,
          e_state = Some \<lparr>answer = ''A'', lives = 0, guessed = {''Y'', ''Z''}\<rparr>\<rparr> ''X'' =
     (Inr \<lparr>answer = ''A'', lives = 0, guessed = {''Y'', ''Z''}\<rparr>,
      \<lparr>e_words = [''A''], e_phrases = [''B C''], e_default_lives = 2,
       e_state = Some \<lparr>answer = ''A'', lives = 0, guessed = {''Y'', ''Z''}\<rparr>\<rparr>) \<and>
   run_calls \<lparr>e_words = [''A''], e_phrases = [''B C''], e_default_lives = 2,
          e_state = Some \<lparr>answer = ''A'', lives = 0, guessed = {''Y'', ''Z''}\<rparr>\<rparr>
      [Guess ''A'', Timeout, Guess ''Q''] =
     \<lparr>e_words = [''A''], e_phrases = [''B C''], e_default_lives = 2,
       e_state = Some \<lparr>answer = ''A'', lives = 0, guessed = {''Y'', ''Z''}\<rparr>\<rparr>"
  using terminal_state_is_absorbing
    [of "\<lparr>e_words = [''A''], e_phrases = [''B C''], e_default_lives = 2,
          e_state = Some \<lparr>answer = ''A'', lives = 0, guessed = {''Y'', ''Z''}\<rparr>\<rparr>"
        "\<lparr>answer = ''A'', lives = 0, guessed = {''Y'', ''Z''}\<rparr>"
        "[Guess ''A'', Timeout, Guess ''Q'']" "''X''"]
  by (simp add: is_won_def is_lost_def)

subsection \<open>C3: the life count stays between zero and the default\<close>

text \<open>
  C3. For an engine constructed with a positive default life count \<open>n\<close>, after any
  sequence of \<^verbatim>\<open>start\<close>, \<^verbatim>\<open>guess\<close> and \<^verbatim>\<open>timeout\<close> calls the stored snapshot has a
  life count that is at least zero and at most \<open>n\<close>.
\<close>

theorem lives_within_bounds:
  assumes "HangmanEngine_init ws ps n = Inr e0" and "0 < n"
    and "e_state (run_calls e0 cs) = Some st"
  shows "0 \<le> lives st \<and> lives st \<le> n"
proof -
  from assms(1) have f: "e_default_lives e0 = n" "e_state e0 = None"
    by (rule init_fields)+
  from f have "lives_bounded e0"
    by (simp add: lives_bounded_def)
  with assms(2) f have "lives_bounded (run_calls e0 cs)"
    by (simp add: run_calls_lives_bounded)
  moreover have "e_default_lives (run_calls e0 cs) = n"
    using f by (simp add: run_calls_static)
  ultimately show ?thesis
    using assms(3) by (simp add: lives_bounded_def)
qed

theorem lives_within_bounds_witness:
  "HangmanEngine_init [''A''] [''B C''] 2 =
     Inr \<lparr>e_words = [''A''], e_phrases = [''B C''], e_default_lives = 2, e_state = None\<rparr> \<and>
   (0::int) < 2 \<and>
   e_state (run_calls \<lparr>e_words = [''A''], e_phrases = [''B C''], e_default_lives = 2, e_state = None\<rparr>
     [Start ''basic'' 0, Guess ''Z'', Guess ''Y'']) =
     Some \<lparr>answer = ''A'', lives = 0, guessed = {''Y'', ''Z''}\<rparr> \<and>
   0 \<le> lives \<lparr>answer = ''A'', lives = 0, guessed = {''Y'', ''Z''}\<rparr> \<and>
   lives \<lparr>answer = ''A'', lives = 0, guessed = {''Y'', ''Z''}\<rparr> \<le> 2"
proof -
  have pos: "(0::int) < 2" by simp
  have run: "e_state (run_calls \<lparr>e_words = [''A''], e_phrases = [''B C''], e_default_lives = 2, e_state = None\<rparr>
     [Start ''basic'' 0, Guess ''Z'', Guess ''Y'']) =
     Some \<lparr>answer = ''A'', lives = 0, guessed = {''Y'', ''Z''}\<rparr>"
    unfolding run_two_wrong_guesses by simp
  from lives_within_bounds [OF init_A_BC_2 pos run] init_A_BC_2 pos run
  show ?thesis by blast
qed

subsection \<open>C7: invalid and repeated guesses\<close>

text \<open>
  C7. In a started round, \<^verbatim>\<open>guess\<close> with an input that, stripped and upper-cased, is
  not exactly one character of \<open>A..Z\<close>, or is a letter of the guessed set, returns
  the stored snapshot and leaves the engine as it is; it raises nothing. Guessing
  the same input a second time, right after the first, changes nothing any more: so
  a repeated letter, right or wrong, costs no life.
\<close>

theorem invalid_or_repeated_guess_ignored:
  assumes "e_state e = Some st"
  shows "((\<not> (\<exists>c. py_upper (py_strip l) = [c] \<and> c \<in> set ascii_uppercase) \<or>
           py_upper (py_strip l) \<in> guessed st) \<longrightarrow> guess e l = (Inr st, e)) \<and>
         guess (snd (guess e l)) l = guess e l"
  using assms by (simp add: guess_ignored guess_twice)

theorem invalid_or_repeated_guess_ignored_witness:
  "guess \<lparr>e_words = [''ABC''], e_phrases = [''X Y''], e_default_lives = 3,
          e_state = Some \<lparr>answer = ''ABC'', lives = 3, guessed = {}\<rparr>\<rparr> ''ab'' =
     (Inr \<lparr>answer = ''ABC'', lives = 3, guessed = {}\<rparr>,
      \<lparr>e_words = [''ABC''], e_phrases = [''X Y''], e_default_lives = 3,
          e_state = Some \<lparr>answer = ''ABC'', lives = 3, guessed = {}\<rparr>\<rparr>)"
  using invalid_or_repeated_guess_ignored
    [of "\<lparr>e_words = [''ABC''], e_phrases = [''X Y''], e_default_lives = 3,
          e_state = Some \<lparr>answer = ''ABC'', lives = 3, guessed = {}\<rparr>\<rparr>"
        "\<lparr>answer = ''ABC'', lives = 3, guessed = {}\<rparr>" "''ab''"]
  by (simp add: upper_strip_ab)

subsection \<open>C1: the masked view\<close>

text \<open>
  C1, as stated, fails: the pieces of the masked view are joined with a single space
  by the engine itself. In Scenario A (words \<^verbatim>\<open>["ABC"]\<close>, phrases \<^verbatim>\<open>["X Y"]\<close>, three
  lives, \<^verbatim>\<open>start("basic")\<close>, \<^verbatim>\<open>guess("A")\<close>) the masked view is \<^verbatim>\<open>A _ _\<close>, which
  is not \<^verbatim>\<open>A__\<close>.
\<close>

theorem masked_scenario_A_counterexample:
  "HangmanEngine_init [''ABC''] [''X Y''] 3 =
     Inr \<lparr>e_words = [''ABC''], e_phrases = [''X Y''], e_default_lives = 3, e_state = None\<rparr> \<and>
   fst (guess (snd (start \<lparr>e_words = [''ABC''], e_phrases = [''X Y''], e_default_lives = 3,
                           e_state = None\<rparr> ''basic'' 0)) ''A'') =
     Inr \<lparr>answer = ''ABC'', lives = 3, guessed = {''A''}\<rparr> \<and>
   masked \<lparr>answer = ''ABC'', lives = 3, guessed = {''A''}\<rparr> = ''A _ _'' \<and>
   masked \<lparr>answer = ''ABC'', lives = 3, guessed = {''A''}\<rparr> \<noteq> ''A__''"
  unfolding init_ABC_XY_3 scenario_A_first_guess masked_ABC_A by simp

text \<open>
  C1, amended. The masked view has one rendered character per character of the
  answer, in the order of the answer, at the even positions: the character itself
  when it is a space or its one-letter string is in the guessed set, the placeholder
  \<^verbatim>\<open>_\<close> otherwise. Between two consecutive rendered characters, at each odd
  position, stands one space, put there by the engine; so the view of an answer of
  \<open>k > 0\<close> characters has \<open>2 k - 1\<close> characters. For the answer \<^verbatim>\<open>ABC\<close> with
  \<^verbatim>\<open>A\<close> guessed it is \<^verbatim>\<open>A _ _\<close>.
\<close>

theorem masked_positions:
  "length (masked st) = 2 * length (answer st) - 1 \<and>
   (\<forall>i<length (answer st).
      masked st ! (2 * i) =
        (if answer st ! i = CHR '' '' \<or> [answer st ! i] \<in> guessed st
         then answer st ! i else MASK_CHAR)) \<and>
   (\<forall>i. Suc i < length (answer st) \<longrightarrow> masked st ! (2 * i + 1) = CHR '' '') \<and>
   masked \<lparr>answer = ''ABC'', lives = 3, guessed = {''A''}\<rparr> = ''A _ _''"
proof (intro conjI allI impI)
  show "length (masked st) = 2 * length (answer st) - 1"
    unfolding masked_pieces by (rule length_join_single)
next
  fix i
  assume "i < length (answer st)"
  then show "masked st ! (2 * i) =
        (if answer st ! i = CHR '' '' \<or> [answer st ! i] \<in> guessed st
         then answer st ! i else MASK_CHAR)"
    unfolding masked_pieces by (rule nth_join_even)
next
  fix i
  assume "Suc i < length (answer st)"
  then show "masked st ! (2 * i + 1) = CHR '' ''"
    unfolding masked_pieces by (rule nth_join_odd)
next
  show "masked \<lparr>answer = ''ABC'', lives = 3, guessed = {''A''}\<rparr> = ''A _ _''"
    by (rule masked_ABC_A)
qed

theorem masked_positions_witness:
  "masked \<lparr>answer = ''X Y'', lives = 2, guessed = {}\<rparr> ! 0 = CHR ''_'' \<and>
   masked \<lparr>answer = ''X Y'', lives = 2, guessed = {}\<rparr> ! 1 = CHR '' '' \<and>
   masked \<lparr>answer = ''X Y'', lives = 2, guessed = {}\<rparr> ! 2 = CHR '' ''"
proof -
  let ?st = "\<lparr>answer = ''X Y'', lives = 2, guessed = {}\<rparr>"
  note m = masked_positions [of ?st]
  from m have even: "\<forall>i<length (answer ?st).
      masked ?st ! (2 * i) =
        (if answer ?st ! i = CHR '' '' \<or> [answer ?st ! i] \<in> guessed ?st
         then answer ?st ! i else MASK_CHAR)"
    by blast
  from m have odd: "\<forall>i. Suc i < length (answer ?st) \<longrightarrow> masked ?st ! (2 * i + 1) = CHR '' ''"
    by blast
  from even [rule_format, of 0] have "masked ?st ! 0 = CHR ''_''"
    by (simp add: MASK_CHAR_def)
  moreover from odd [rule_format, of 0] have "masked ?st ! 1 = CHR '' ''"
    by simp
  moreover from even [rule_format, of 1] have "masked ?st ! 2 = CHR '' ''"
    by simp
  ultimately show ?thesis by blast
qed

subsection \<open>C4: won and lost\<close>

text \<open>
  C4, as stated, fails in its second part: \<^verbatim>\<open>is_lost\<close> tests \<^verbatim>\<open>lives <= 0\<close>, not
  \<^verbatim>\<open>lives == 0\<close>. An engine constructed with the default life count \<open>-1\<close> starts a
  round whose snapshot is lost although its life count is not zero.
\<close>

theorem lost_with_negative_lives_counterexample:
  "HangmanEngine_init [''A''] [''B''] (- 1) =
     Inr \<lparr>e_words = [''A''], e_phrases = [''B''], e_default_lives = - 1, e_state = None\<rparr> \<and>
   fst (start \<lparr>e_words = [''A''], e_phrases = [''B''], e_default_lives = - 1,
               e_state = None\<rparr> ''basic'' 0) =
     Inr \<lparr>answer = ''A'', lives = - 1, guessed = {}\<rparr> \<and>
   is_lost \<lparr>answer = ''A'', lives = - 1, guessed = {}\<rparr> \<and>
   \<not> (lives \<lparr>answer = ''A'', lives = - 1, guessed = {}\<rparr> = 0 \<and>
      \<not> is_won \<lparr>answer = ''A'', lives = - 1, guessed = {}\<rparr>)"
  unfolding init_A_B_minus_1 start_A_B_minus_1 using lost_A_minus_1 by simp

text \<open>
  C4, amended. For every snapshot: it is won iff every character of the answer that
  is not a space is (as a one-letter string) in the guessed set; it is lost iff the
  life count is at most zero and it is not won, which for a life count that is not
  negative means: iff the life count is zero and it is not won. So no snapshot is
  both won and lost, and a snapshot with zero lives and every letter guessed is won
  and not lost.
\<close>

theorem won_lost_characterisation:
  "(is_won st \<longleftrightarrow> (\<forall>ch\<in>set (answer st). ch \<noteq> CHR '' '' \<longrightarrow> [ch] \<in> guessed st)) \<and>
   (is_lost st \<longleftrightarrow> lives st \<le> 0 \<and> \<not> is_won st) \<and>
   (0 \<le> lives st \<longrightarrow> (is_lost st \<longleftrightarrow> lives st = 0 \<and> \<not> is_won st)) \<and>
   \<not> (is_won st \<and> is_lost st) \<and>
   (lives st = 0 \<and> (\<forall>ch\<in>set (answer st). ch \<noteq> CHR '' '' \<longrightarrow> [ch] \<in> guessed st) \<longrightarrow>
      is_won st \<and> \<not> is_lost st)"
proof -
  have won: "is_won st \<longleftrightarrow> (\<forall>ch\<in>set (answer st). ch \<noteq> CHR '' '' \<longrightarrow> [ch] \<in> guessed st)"
    by (auto simp add: is_won_def list_all_iff)
  have lost: "is_lost st \<longleftrightarrow> lives st \<le> 0 \<and> \<not> is_won st"
    by (simp add: is_lost_def)
  have "0 \<le> lives st \<longrightarrow> (is_lost st \<longleftrightarrow> lives st = 0 \<and> \<not> is_won st)"
    unfolding lost by auto
  moreover have "\<not> (is_won st \<and> is_lost st)"
    unfolding lost by simp
  moreover have "lives st = 0 \<and> (\<forall>ch\<in>set (answer st). ch \<noteq> CHR '' '' \<longrightarrow> [ch] \<in> guessed st) \<longrightarrow>
      is_won st \<and> \<not> is_lost st"
    unfolding lost won by simp
  ultimately show ?thesis
    using won lost by blast
qed

theorem won_lost_characterisation_witness:
  "is_won \<lparr>answer = ''A B'', lives = 0, guessed = {''A'', ''B''}\<rparr> \<and>
   \<not> is_lost \<lparr>answer = ''A B'', lives = 0, guessed = {''A'', ''B''}\<rparr>"
proof -
  let ?st = "\<lparr>answer = ''A B'', lives = 0, guessed = {''A'', ''B''}\<rparr>"
  have h: "lives ?st = 0 \<and> (\<forall>ch\<in>set (answer ?st). ch \<noteq> CHR '' '' \<longrightarrow> [ch] \<in> guessed ?st)"
    by simp
  from won_lost_characterisation [of ?st] h show ?thesis
    by blast
qed

subsection \<open>C8: usage errors are raised\<close>

text \<open>
  C8. The constructor raises \<^verbatim>\<open>ValueError\<close> exactly when no word, or no phrase, is
  left once the blank entries (empty, or white space only) are dropped. On a
  constructed engine, after any calls, \<^verbatim>\<open>start(d)\<close> raises exactly when \<open>d\<close> is
  neither \<^verbatim>\<open>basic\<close> nor \<^verbatim>\<open>intermediate\<close>; what it raises then is \<^verbatim>\<open>ValueError\<close>,
  and the engine, with the snapshot of any earlier round, is left as it was. As long
  as no round has been started, reading \<^verbatim>\<open>state\<close> raises \<^verbatim>\<open>RuntimeError\<close>
  (\<^verbatim>\<open>game not started\<close>).
\<close>

theorem usage_errors_are_raised:
  "(HangmanEngine_init ws ps n = Inl ValueError \<longleftrightarrow>
      filter (\<lambda>w. \<not> list_all py_isspace w) ws = [] \<or>
      filter (\<lambda>p. \<not> list_all py_isspace p) ps = []) \<and>
   (isl (HangmanEngine_init ws ps n) \<longleftrightarrow> HangmanEngine_init ws ps n = Inl ValueError) \<and>
   (HangmanEngine_init ws ps n = Inr e0 \<longrightarrow>
      (isl (fst (start (run_calls e0 cs) d r)) \<longleftrightarrow> d \<noteq> ''basic'' \<and> d \<noteq> ''intermediate'') \<and>
      (d \<noteq> ''basic'' \<and> d \<noteq> ''intermediate'' \<longrightarrow>
         start (run_calls e0 cs) d r = (Inl ValueError, run_calls e0 cs)) \<and>
      ((\<forall>c\<in>set cs. \<not> is_start c) \<longrightarrow> state (run_calls e0 cs) = Inl RuntimeError))"
proof (intro conjI impI)
  show "HangmanEngine_init ws ps n = Inl ValueError \<longleftrightarrow>
      filter (\<lambda>w. \<not> list_all py_isspace w) ws = [] \<or>
      filter (\<lambda>p. \<not> list_all py_isspace p) ps = []"
    by (rule init_raises_iff)
next
  show "isl (HangmanEngine_init ws ps n) \<longleftrightarrow> HangmanEngine_init ws ps n = Inl ValueError"
    using init_result [of ws ps n] by auto
next
  assume "HangmanEngine_init ws ps n = Inr e0"
  then have "e_words e0 \<noteq> []" "e_phrases e0 \<noteq> []"
    by (rule init_fields)+
  then have "e_words (run_calls e0 cs) \<noteq> []" "e_phrases (run_calls e0 cs) \<noteq> []"
    by (simp_all add: run_calls_static)
  then show "isl (fst (start (run_calls e0 cs) d r)) \<longleftrightarrow> d \<noteq> ''basic'' \<and> d \<noteq> ''intermediate''"
    by (rule start_raises_iff)
next
  assume "d \<noteq> ''basic'' \<and> d \<noteq> ''intermediate''"
  then show "start (run_calls e0 cs) d r = (Inl ValueError, run_calls e0 cs)"
    by (simp add: start_invalid)
next
  assume "HangmanEngine_init ws ps n = Inr e0"
  then have none: "e_state e0 = None"
    by (rule init_fields)
  assume "\<forall>c\<in>set cs. \<not> is_start c"
  with none have "run_calls e0 cs = e0"
    by (rule run_calls_not_started)
  with none show "state (run_calls e0 cs) = Inl RuntimeError"
    by (simp add: state_def)
qed

theorem usage_errors_are_raised_witness:
  "HangmanEngine_init ['' '', ''''] [''X Y''] 3 = Inl ValueError \<and>
   start (run_calls \<lparr>e_words = [''ABC''], e_phrases = [''X Y''], e_default_lives = 3,
                      e_state = None\<rparr> [Guess ''A'', Timeout]) ''hard'' 0 =
     (Inl ValueError,
      run_calls \<lparr>e_words = [''ABC''], e_phrases = [''X Y''], e_default_lives = 3,
                 e_state = None\<rparr> [Guess ''A'', Timeout]) \<and>
   state (run_calls \<lparr>e_words = [''ABC''], e_phrases = [''X Y''], e_default_lives = 3,
                      e_state = None\<rparr> [Guess ''A'', Timeout]) = Inl RuntimeError"
proof -
  let ?e0 = "\<lparr>e_words = [''ABC''], e_phrases = [''X Y''], e_default_lives = 3, e_state = None\<rparr>"
  let ?cs = "[Guess ''A'', Timeout]"
  have blank: "filter (\<lambda>w. \<not> list_all py_isspace w) ['' '', ''''] = [] \<or>
      filter (\<lambda>p. \<not> list_all py_isspace p) [''X Y''] = []"
    by (simp add: py_isspace_def)
  have d: "''hard'' \<noteq> ''basic'' \<and> ''hard'' \<noteq> ''intermediate''"
    by simp
  have cs: "\<forall>c\<in>set ?cs. \<not> is_start c"
    by simp
  from usage_errors_are_raised [of "['' '', '''']" "[''X Y'']" 3] blank
  have "HangmanEngine_init ['' '', ''''] [''X Y''] 3 = Inl ValueError"
    by blast
  moreover from usage_errors_are_raised [of "[''ABC'']" "[''X Y'']" 3 ?e0 ?cs "''hard''" 0]
    init_ABC_XY_3 d cs
  have "start (run_calls ?e0 ?cs) ''hard'' 0 = (Inl ValueError, run_calls ?e0 ?cs) \<and>
        state (run_calls ?e0 ?cs) = Inl RuntimeError"
    by blast
  ultimately show ?thesis by blast
qed

subsection \<open>C9: an entry without letters\<close>

text \<open>
  C9, as stated, fails: the entry is upper-cased before the characters other than
  \<open>A..Z\<close> and the space are dropped. The entry \<^verbatim>\<open>abc\<close> contains no character of
  \<open>A..Z\<close>, yet the round that draws it has the answer \<^verbatim>\<open>ABC\<close>, is not won at
  start, and a \<^verbatim>\<open>timeout\<close> on it takes a life.
\<close>

theorem lowercase_entry_counterexample:
  "HangmanEngine_init [''abc''] [''X Y''] 3 =
     Inr \<lparr>e_words = [''abc''], e_phrases = [''X Y''], e_default_lives = 3, e_state = None\<rparr> \<and>
   set ''abc'' \<inter> set ascii_uppercase = {} \<and>
   start \<lparr>e_words = [''abc''], e_phrases = [''X Y''], e_default_lives = 3, e_state = None\<rparr>
     ''basic'' 0 =
     (Inr \<lparr>answer = ''ABC'', lives = 3, guessed = {}\<rparr>,
      \<lparr>e_words = [''abc''], e_phrases = [''X Y''], e_default_lives = 3,
       e_state = Some \<lparr>answer = ''ABC'', lives = 3, guessed = {}\<rparr>\<rparr>) \<and>
   answer \<lparr>answer = ''ABC'', lives = 3, guessed = {}\<rparr> \<noteq> [] \<and>
   \<not> is_won \<lparr>answer = ''ABC'', lives = 3, guessed = {}\<rparr> \<and>
   fst (timeout \<lparr>e_words = [''abc''], e_phrases = [''X Y''], e_default_lives = 3,
                 e_state = Some \<lparr>answer = ''ABC'', lives = 3, guessed = {}\<rparr>\<rparr>) =
     Inr \<lparr>answer = ''ABC'', lives = 2, guessed = {}\<rparr>"
  unfolding init_abc_XY_3 start_abc_XY_3 timeout_abc_XY_3
  using abc_no_capitals not_won_ABC_fresh by simp

text \<open>
  C9, amended. When the entry that \<^verbatim>\<open>start\<close> draws, once upper-cased, contains no
  character of \<open>A..Z\<close> (it consists of digits or punctuation only, say), the call
  returns and stores a snapshot whose answer is the empty string and which is won at
  once, and not lost; every \<^verbatim>\<open>guess\<close> and \<^verbatim>\<open>timeout\<close> after it, alone or in a
  sequence, returns that snapshot and leaves the engine as it is.
\<close>

theorem letterless_entry_is_won_at_start:
  assumes "d = ''basic'' \<or> d = ''intermediate''"
    and "pool = (if d = ''basic'' then e_words e else e_phrases e)"
    and "pool \<noteq> []"
    and "\<forall>ch\<in>set (py_upper (pool ! (r mod length pool))). ch \<notin> set ascii_uppercase"
    and "\<forall>c\<in>set cs. \<not> is_start c"
  shows "\<exists>st e1. start e d r = (Inr st, e1) \<and> e_state e1 = Some st \<and>
           answer st = [] \<and> is_won st \<and> \<not> is_lost st \<and>
           guess e1 l = (Inr st, e1) \<and> timeout e1 = (Inr st, e1) \<and>
           run_calls e1 cs = e1 \<and> (\<forall>c\<in>set cs. exec_call e1 c = (Inr st, e1))"
proof -
  let ?st = "\<lparr>answer = normalize_answer (pool ! (r mod length pool)),
              lives = e_default_lives e, guessed = {}\<rparr>"
  let ?e1 = "e\<lparr>e_state := Some ?st\<rparr>"
  have s: "start e d r = (Inr ?st, ?e1)"
    using assms(1-3) refl by (rule start_valid)
  have a: "answer ?st = []"
    using assms(4) by (simp add: normalize_answer_empty)
  then have w: "is_won ?st"
    by (rule is_won_empty_answer)
  then have t: "is_won ?st \<or> is_lost ?st" ..
  have st: "e_state ?e1 = Some ?st"
    by simp
  have "guess ?e1 l = (Inr ?st, ?e1)"
    using st t by (rule guess_terminal)
  moreover have "timeout ?e1 = (Inr ?st, ?e1)"
    using st t by (rule timeout_terminal)
  moreover have "run_calls ?e1 cs = ?e1"
    using st t assms(5) by (rule run_calls_terminal)
  moreover have "\<forall>c\<in>set cs. exec_call ?e1 c = (Inr ?st, ?e1)"
    using st t assms(5) by (blast intro: exec_call_terminal)
  moreover have "\<not> is_lost ?st"
    using w by (simp add: is_lost_def)
  ultimately show ?thesis
    using s a w st by blast
qed

theorem letterless_entry_is_won_at_start_witness:
  "\<exists>st e1. start \<lparr>e_words = [''1-2''], e_phrases = [''X Y''], e_default_lives = 3,
                   e_state = None\<rparr> ''basic'' 0 = (Inr st, e1) \<and>
      answer st = [] \<and> is_won st \<and>
      guess e1 ''A'' = (Inr st, e1) \<and> timeout e1 = (Inr st, e1) \<and>
      run_calls e1 [Timeout, Guess ''Q''] = e1"
proof -
  let ?e = "\<lparr>e_words = [''1-2''], e_phrases = [''X Y''], e_default_lives = 3, e_state = None\<rparr>"
  have d: "''basic'' = ''basic'' \<or> ''basic'' = ''intermediate''"
    by simp
  have pool: "[''1-2''] = (if ''basic'' = ''basic'' then e_words ?e else e_phrases ?e)"
    by simp
  have ne: "[''1-2''] \<noteq> []"
    by simp
  have noletter: "\<forall>ch\<in>set (py_upper ([''1-2''] ! (0 mod length [''1-2'']))). ch \<notin> set ascii_uppercase"
    by (simp add: upper_digits ascii_uppercase_def)
  have cs: "\<forall>c\<in>set [Timeout, Guess ''Q'']. \<not> is_start c"
    by simp
  from letterless_entry_is_won_at_start [OF d pool ne noletter cs, of "''A''"]
  show ?thesis by blast
qed

subsection \<open>C10: a default life count that is not positive\<close>

text \<open>
  C10. The constructor does not look at the life count: with pools that are not
  empty once the blank entries are dropped it returns an engine for a life count
  \<open>n \<le> 0\<close> as well. A round started on that engine, after any calls, has the life
  count \<open>n\<close>, so at most zero; it is won exactly when its answer is empty and lost
  otherwise, so decided in any case, and every \<^verbatim>\<open>guess\<close> and \<^verbatim>\<open>timeout\<close> after it,
  alone or in a sequence, returns that snapshot and leaves the engine as it is.
\<close>

theorem nonpositive_default_lives_round_is_decided:
  assumes "filter (\<lambda>w. \<not> list_all py_isspace w) ws \<noteq> []"
    and "filter (\<lambda>p. \<not> list_all py_isspace p) ps \<noteq> []"
    and "n \<le> 0"
    and "d = ''basic'' \<or> d = ''intermediate''"
    and "\<forall>c\<in>set cs. \<not> is_start c"
  shows "\<exists>e0 st e1. HangmanEngine_init ws ps n = Inr e0 \<and>
           start (run_calls e0 cs0) d r = (Inr st, e1) \<and> e_state e1 = Some st \<and>
           lives st = n \<and> lives st \<le> 0 \<and>
           (is_won st \<longleftrightarrow> answer st = []) \<and> (is_lost st \<longleftrightarrow> answer st \<noteq> []) \<and>
           guess e1 l = (Inr st, e1) \<and> timeout e1 = (Inr st, e1) \<and>
           run_calls e1 cs = e1 \<and> (\<forall>c\<in>set cs. exec_call e1 c = (Inr st, e1))"
proof -
  from assms(1,2) init_raises_iff [of ws ps n] init_result [of ws ps n]
  obtain e0 where i: "HangmanEngine_init ws ps n = Inr e0"
    by blast
  let ?e = "run_calls e0 cs0"
  let ?pool = "if d = ''basic'' then e_words ?e else e_phrases ?e"
  let ?st = "\<lparr>answer = normalize_answer (?pool ! (r mod length ?pool)),
              lives = e_default_lives ?e, guessed = {}\<rparr>"
  let ?e1 = "?e\<lparr>e_state := Some ?st\<rparr>"
  from i have "e_words e0 \<noteq> []" "e_phrases e0 \<noteq> []" and dl: "e_default_lives e0 = n"
    by (rule init_fields)+
  then have ne: "?pool \<noteq> []"
    by (simp add: run_calls_static)
  have s: "start ?e d r = (Inr ?st, ?e1)"
    using assms(4) refl ne refl by (rule start_valid)
  have n: "lives ?st = n"
    using dl by (simp add: run_calls_static)
  have w: "is_won ?st \<longleftrightarrow> answer ?st = []"
    using is_won_fresh_iff [of "?pool ! (r mod length ?pool)" "e_default_lives ?e"] by simp
  have lo: "is_lost ?st \<longleftrightarrow> answer ?st \<noteq> []"
    using w n assms(3) by (simp add: is_lost_def)
  from w lo have t: "is_won ?st \<or> is_lost ?st"
    by blast
  have st: "e_state ?e1 = Some ?st"
    by simp
  have "guess ?e1 l = (Inr ?st, ?e1)"
    using st t by (rule guess_terminal)
  moreover have "timeout ?e1 = (Inr ?st, ?e1)"
    using st t by (rule timeout_terminal)
  moreover have "run_calls ?e1 cs = ?e1"
    using st t assms(5) by (rule run_calls_terminal)
  moreover have "\<forall>c\<in>set cs. exec_call ?e1 c = (Inr ?st, ?e1)"
    using st t assms(5) by (blast intro: exec_call_terminal)
  moreover have "lives ?st \<le> 0"
    using n assms(3) by simp
  ultimately show ?thesis
    using i s st n w lo by blast
qed

theorem nonpositive_default_lives_round_is_decided_witness:
  "\<exists>e0 st e1. HangmanEngine_init [''ABC''] [''X Y''] 0 = Inr e0 \<and>
      start (run_calls e0 []) ''intermediate'' 0 = (Inr st, e1) \<and>
      lives st = 0 \<and> is_lost st \<and>
      guess e1 ''X'' = (Inr st, e1) \<and> timeout e1 = (Inr st, e1) \<and>
      run_calls e1 [Guess ''X'', Timeout] = e1"
proof -
  have ws: "filter (\<lambda>w. \<not> list_all py_isspace w) [''ABC''] \<noteq> []"
    by (simp add: py_isspace_def)
  have ps: "filter (\<lambda>p. \<not> list_all py_isspace p) [''X Y''] \<noteq> []"
    by (simp add: py_isspace_def)
  have n: "(0::int) \<le> 0"
    by simp
  have d: "''intermediate'' = ''basic'' \<or> ''intermediate'' = ''intermediate''"
    by simp
  have cs: "\<forall>c\<in>set [Guess ''X'', Timeout]. \<not> is_start c"
    by simp
  from nonpositive_default_lives_round_is_decided [OF ws ps n d cs, of "[]" 0 "''X''"]
  obtain e0 st e1 where
    a: "HangmanEngine_init [''ABC''] [''X Y''] 0 = Inr e0"
      "start (run_calls e0 []) ''intermediate'' 0 = (Inr st, e1)"
      "lives st = 0" "is_lost st \<longleftrightarrow> answer st \<noteq> []"
      "guess e1 ''X'' = (Inr st, e1)" "timeout e1 = (Inr st, e1)"
      "run_calls e1 [Guess ''X'', Timeout] = e1"
    by blast
  from a(1) have "e0 = \<lparr>e_words = [''ABC''], e_phrases = [''X Y''], e_default_lives = 0, e_state = None\<rparr>"
    unfolding init_ABC_XY_0 by simp
  with a(2) have "st = \<lparr>answer = ''X Y'', lives = 0, guessed = {}\<rparr>"
    by (simp add: start_ABC_XY_0)
  then have "answer st \<noteq> []"
    by simp
  with a show ?thesis by blast
qed

end
